theory Spec2Isabelle
  imports Complex_Main "HOL-Library.Multiset" "HOL-Library.Sublist"
begin

section \<open>JavaScript values\<close>

text \<open>
  The feature extractor computes with JavaScript numbers. A number is modelled as an exact
  real, one of the two infinities, or NaN: the rounding of IEEE doubles, their overflow
  to an infinity and the sign of zero are not modelled, the special values that division
  by zero produces are. A statement about arbitrary samples is therefore made under the
  side condition \<open>no_overflow\<close> below. The operations are the ones \<open>extractFeatures.ts\<close>
  applies to numbers.
\<close>

datatype jsnum = Num real | PInf | NInf | NaN

fun js_add :: "jsnum \<Rightarrow> jsnum \<Rightarrow> jsnum" where
  "js_add (Num a) (Num b) = Num (a + b)"
| "js_add NaN _ = NaN"
| "js_add _ NaN = NaN"
| "js_add PInf NInf = NaN"
| "js_add NInf PInf = NaN"
| "js_add PInf _ = PInf"
| "js_add _ PInf = PInf"
| "js_add NInf _ = NInf"
| "js_add _ NInf = NInf"

fun js_neg :: "jsnum \<Rightarrow> jsnum" where
  "js_neg (Num a) = Num (- a)"
| "js_neg PInf = NInf"
| "js_neg NInf = PInf"
| "js_neg NaN = NaN"

definition js_sub :: "jsnum \<Rightarrow> jsnum \<Rightarrow> jsnum" where
  "js_sub a b = js_add a (js_neg b)"

fun js_div :: "jsnum \<Rightarrow> jsnum \<Rightarrow> jsnum" where
  "js_div (Num a) (Num b) =
     (if b = 0 then (if a = 0 then NaN else if 0 < a then PInf else NInf)
      else Num (a / b))"
| "js_div NaN _ = NaN"
| "js_div _ NaN = NaN"
| "js_div (Num a) _ = Num 0"
| "js_div PInf (Num b) = (if 0 \<le> b then PInf else NInf)"
| "js_div NInf (Num b) = (if 0 \<le> b then NInf else PInf)"
| "js_div _ _ = NaN"

text \<open>\<open>Math.pow(x, 2)\<close> and \<open>Math.sqrt(x)\<close>.\<close>

fun js_pow2 :: "jsnum \<Rightarrow> jsnum" where
  "js_pow2 (Num a) = Num (a * a)"
| "js_pow2 NaN = NaN"
| "js_pow2 _ = PInf"

fun js_sqrt :: "jsnum \<Rightarrow> jsnum" where
  "js_sqrt (Num a) = (if a < 0 then NaN else Num (sqrt a))"
| "js_sqrt PInf = PInf"
| "js_sqrt _ = NaN"

text \<open>
  The values stored in the fields of an object. An object is the list of its own
  properties in insertion order; a property whose value is \<open>undefined\<close> is still a property.
\<close>

datatype jsval = JUndefined | JNull | JNum jsnum | JStr string

type_synonym obj = "(string \<times> jsval) list"

text \<open>Assigning a property: an existing key keeps its position, a new key goes last.\<close>

fun obj_set :: "string \<Rightarrow> jsval \<Rightarrow> obj \<Rightarrow> obj" where
  "obj_set k v [] = [(k, v)]"
| "obj_set k v ((k', v') # ps) = (if k' = k then (k, v) # ps else (k', v') # obj_set k v ps)"

text \<open>The spread \<open>{...target, ...src}\<close> assigns the properties of \<open>src\<close> in their order.\<close>

definition obj_spread :: "obj \<Rightarrow> obj \<Rightarrow> obj" where
  "obj_spread target src = foldl (\<lambda>t (k, v). obj_set k v t) target src"

text \<open>Reading \<open>xs[i]\<close> from an array of numbers: out of range it is \<open>undefined\<close>.\<close>

definition js_index :: "real list \<Rightarrow> int \<Rightarrow> jsval" where
  "js_index xs i = (if 0 \<le> i \<and> i < int (length xs) then JNum (Num (xs ! nat i)) else JUndefined)"

section \<open>Distribution statistics\<close>

text \<open>
  \<open>extractDistributionStatistics(baseFeatureName, nums)\<close> receives a reference to an array
  and sorts that array in place (\<open>nums.sort\<close>), so the model works on a store of arrays: the
  argument \<open>nums\<close> is an address, and the function returns the statistics object and the
  store after the call. \<open>sortedNums\<close> is the same reference as \<open>nums\<close>, so the last
  reduction (the standard deviation) reads the sorted array. The sample holds finite
  numbers, on which the comparator \<open>(a, b) => a - b\<close> sorts ascending.
\<close>

type_synonym addr = nat
type_synonym heap = "addr \<Rightarrow> real list"

definition extractDistributionStatistics :: "string \<Rightarrow> addr \<Rightarrow> heap \<Rightarrow> obj \<times> heap" where
  "extractDistributionStatistics baseFeatureName nums h =
     (let average = js_div (foldl (\<lambda>acc num. js_add acc (Num num)) (Num 0) (h nums))
                           (Num (real (length (h nums))));
          h' = h(nums := sort (h nums));
          sortedNums = nums;
          median = js_index (h' sortedNums) \<lfloor>real (length (h' sortedNums)) / 2\<rfloor>;
          q1 = js_index (h' sortedNums) \<lfloor>real (length (h' sortedNums)) / 4\<rfloor>;
          q3 = js_index (h' sortedNums) \<lfloor>real (length (h' sortedNums)) * 3 / 4\<rfloor>;
          stdDev = js_sqrt (js_div
                     (foldl (\<lambda>acc num. js_add acc (js_pow2 (js_sub (Num num) average)))
                            (Num 0) (h' nums))
                     (Num (real (length (h' nums)))));
          stats = [(baseFeatureName @ ''Average'', JNum average),
                   (baseFeatureName @ ''Median'', median),
                   (baseFeatureName @ ''Q1'', q1),
                   (baseFeatureName @ ''Q3'', q3),
                   (baseFeatureName @ ''StdDev'', JNum stdDev)]
      in (stats, h'))"

text \<open>
  The number model adds and squares exactly, so it never overflows, while the sums of the
  program are doubles and become \<open>Infinity\<close> beyond \<open>Number.MAX_VALUE\<close>. The predicate
  \<open>no_overflow\<close> names the samples on which the two agree up to rounding: the elements,
  the partial sums of the first reduction (in the order of the sample), the distances
  to the mean, their squares and the partial sums of the squares in the second
  reduction (in ascending order) all lie within the range of finite doubles. The
  divisions by the length and the square root cannot leave that range.
\<close>

definition MAX_VALUE :: real where
  "MAX_VALUE = (2 - 1 / 2 ^ 52) * 2 ^ 1023"

definition in_double_range :: "real \<Rightarrow> bool" where
  "in_double_range x = (\<bar>x\<bar> \<le> MAX_VALUE)"

definition no_overflow :: "real list \<Rightarrow> bool" where
  "no_overflow nums =
     (let mean = sum_list nums / real (length nums);
          squares = map (\<lambda>num. (num - mean)\<^sup>2) (sort nums)
      in list_all in_double_range nums
         \<and> list_all (\<lambda>p. in_double_range (sum_list p)) (prefixes nums)
         \<and> list_all (\<lambda>num. in_double_range (num - mean)) nums
         \<and> list_all in_double_range squares
         \<and> list_all (\<lambda>p. in_double_range (sum_list p)) (prefixes squares))"

section \<open>Errors\<close>

text \<open>
  Every \<open>throw\<close> of \<open>extractFeatures.ts\<close> and every runtime failure of a property access
  on \<open>undefined\<close> or \<open>null\<close> is a value of this type; a function that can fail returns
  \<open>error + 'a\<close>, with \<open>Inl\<close> for the rejected promise.
\<close>

datatype error =
    MissingTitle
  | MissingTitleOrOldid
  | UnexpectedApiStructure
  | UnexpectedDiffStructure
  | UnexpectedDiffFormat
  | RateLimitExceeded
  | TransportFailure
  | ParseFailure
  | TypeError

section \<open>Retry and cache: fetchWithRetry\<close>

text \<open>
  One network call either rejects (\<open>fetch\<close> throws, \<open>response\<close> stays undefined) or
  yields a response with a status whose body \<open>response.json()\<close> parses (\<open>Some\<close>) or
  rejects (\<open>None\<close>). The upstream is a function from the locator and the number of
  calls issued so far to that outcome. The state holds the process-wide cache, the
  number of network calls issued, and the seconds spent waiting.
\<close>

datatype 'd fetch_outcome = FetchFails | Responds nat "'d option"

record 'd net_state =
  cache :: "string \<rightharpoonup> 'd"
  calls :: nat
  waited :: nat

definition rateLimitExceededWaitTimeSeconds :: nat where
  "rateLimitExceededWaitTimeSeconds = 10"

text \<open>
  The status is inspected in the \<open>catch\<close> block only, that is after \<open>fetch\<close> or
  \<open>response.json()\<close> has thrown; a response whose body parses is cached and returned
  whatever its status. \<open>retryCount\<close> is a natural number: the default is 3 and the
  function only ever decrements it after comparing it with 0.
\<close>

function fetchWithRetry ::
  "(string \<Rightarrow> nat \<Rightarrow> 'd fetch_outcome) \<Rightarrow> string \<Rightarrow> nat \<Rightarrow> 'd net_state
     \<Rightarrow> (error + 'd) \<times> 'd net_state" where
  "fetchWithRetry net url retryCount s =
     (case cache s url of
        Some data \<Rightarrow> (Inr data, s)
      | None \<Rightarrow>
          (case net url (calls s) of
             FetchFails \<Rightarrow> (Inl TransportFailure, s\<lparr>calls := calls s + 1\<rparr>)
           | Responds status None \<Rightarrow>
               if status = 429 then
                 if retryCount = 0 then (Inl RateLimitExceeded, s\<lparr>calls := calls s + 1\<rparr>)
                 else fetchWithRetry net url (retryCount - 1)
                        (s\<lparr>calls := calls s + 1,
                           waited := waited s + rateLimitExceededWaitTimeSeconds\<rparr>)
               else (Inl ParseFailure, s\<lparr>calls := calls s + 1\<rparr>)
           | Responds status (Some data) \<Rightarrow>
               (Inr data, s\<lparr>calls := calls s + 1, cache := (cache s)(url \<mapsto> data)\<rparr>)))"
  by pat_completeness auto
termination
  by (relation "measure (\<lambda>(net, url, retryCount, s). retryCount)") auto

section \<open>Risk scorer: fetchRevertRiskScore\<close>

text \<open>
  One pass through the body of the \<open>try\<close> block ends in one of three ways: the response
  has status 429; something throws (\<open>fetch\<close>, \<open>response.json()\<close>, or the property path
  \<open>data.output.probabilities\<close> on a payload of another shape); or the value of
  \<open>data.output.probabilities.true\<close> is returned. The endpoint is a function from the
  identifier posted and the number of the attempt to that outcome. The state counts the
  attempts made and the seconds waited; the wait stands in the branch of status 429
  only. \<open>retryCount\<close> is a natural number (the default is 3), and reaching 0 is the
  end of the \<open>while\<close> loop, after which 0 is returned.
\<close>

datatype risk_outcome = Status429 | Throws | Returns jsval

record risk_state =
  attempts :: nat
  risk_waited :: nat

fun fetchRevertRiskScore_loop ::
  "(nat \<Rightarrow> risk_outcome) \<Rightarrow> nat \<Rightarrow> risk_state \<Rightarrow> jsval \<times> risk_state" where
  "fetchRevertRiskScore_loop endpoint 0 s = (JNum (Num 0), s)"
| "fetchRevertRiskScore_loop endpoint (Suc retryCount) s =
     (case endpoint (attempts s) of
        Status429 \<Rightarrow>
          fetchRevertRiskScore_loop endpoint retryCount
            (s\<lparr>attempts := attempts s + 1,
               risk_waited := risk_waited s + rateLimitExceededWaitTimeSeconds\<rparr>)
      | Throws \<Rightarrow>
          fetchRevertRiskScore_loop endpoint retryCount (s\<lparr>attempts := attempts s + 1\<rparr>)
      | Returns v \<Rightarrow> (v, s\<lparr>attempts := attempts s + 1\<rparr>))"

definition fetchRevertRiskScore ::
  "(nat \<Rightarrow> nat \<Rightarrow> risk_outcome) \<Rightarrow> nat \<Rightarrow> nat \<Rightarrow> jsval \<times> risk_state" where
  "fetchRevertRiskScore endpoint revisionId retryCount =
     fetchRevertRiskScore_loop (endpoint revisionId) retryCount
       \<lparr>attempts = 0, risk_waited = 0\<rparr>"

section \<open>Diff retrieval\<close>

text \<open>
  \<open>diffText.match(/<pre>/g)\<close> collects the matches of a literal from left to right, each
  search resuming after the previous match.
\<close>

function count_matches :: "string \<Rightarrow> string \<Rightarrow> nat" where
  "count_matches pat s =
     (if s = [] \<or> pat = [] then 0
      else if prefix pat s then Suc (count_matches pat (drop (length pat) s))
      else count_matches pat (tl s))"
  by pat_completeness auto
termination
  by (relation "measure (\<lambda>(pat, s). length s)") auto

text \<open>Splitting a text at the leftmost occurrence of a literal.\<close>

fun find_first :: "string \<Rightarrow> string \<Rightarrow> (string \<times> string) option" where
  "find_first pat [] = (if pat = [] then Some ([], []) else None)"
| "find_first pat (c # cs) =
     (if prefix pat (c # cs) then Some ([], drop (length pat) (c # cs))
      else map_option (\<lambda>(before, after). (c # before, after)) (find_first pat cs))"

text \<open>
  \<open>diffText.match(/<pre>([\s\S]*?)<\/pre>/)\<close>: the regular expression matches at the
  leftmost \<open><pre>\<close> that some \<open></pre>\<close> follows, and its lazy group stops at the first
  \<open></pre>\<close> after it. When no \<open></pre>\<close> follows the leftmost \<open><pre>\<close>, none follows a
  later one either, and the match is \<open>null\<close>. The result is the text of group 1.
\<close>

definition match_pre_block :: "string \<Rightarrow> string option" where
  "match_pre_block diffText =
     (case find_first ''<pre>'' diffText of
        None \<Rightarrow> None
      | Some (before, after) \<Rightarrow>
          (case find_first ''</pre>'' after of
             None \<Rightarrow> None
           | Some (inner, rest) \<Rightarrow> Some inner))"

text \<open>
  The payload of the compare request, as far as the code reads it: no \<open>compare\<close> field, a
  \<open>compare\<close> object without the \<open>*\<close> field, or the diff text. The argument of
  \<open>fetchDiffFromRevId\<close> is what \<open>fetchWithRetry\<close> returned for the compare locator.
\<close>

datatype diff_data = NoCompare | CompareWithoutText | CompareText string

definition fetchDiffFromRevId :: "error + diff_data \<Rightarrow> error + string" where
  "fetchDiffFromRevId fetched =
     (case fetched of
        Inl e \<Rightarrow> Inl e
      | Inr NoCompare \<Rightarrow> Inl UnexpectedDiffStructure
      | Inr CompareWithoutText \<Rightarrow> Inl TypeError
      | Inr (CompareText diffText) \<Rightarrow>
          if count_matches ''<pre>'' diffText \<noteq> 1 then Inl UnexpectedDiffFormat
          else (case match_pre_block diffText of
                  None \<Rightarrow> Inl TypeError
                | Some unifiedDiff \<Rightarrow> Inr unifiedDiff))"

text \<open>
  A revision locator is read through its query parameters \<open>title\<close> and \<open>oldid\<close>
  (\<open>None\<close> when the parameter is absent); an empty parameter is falsy like an absent one.
\<close>

definition fetchDiffFromUrl ::
  "string option \<Rightarrow> string option \<Rightarrow> error + diff_data \<Rightarrow> error + string" where
  "fetchDiffFromUrl title oldid fetched =
     (if title = None \<or> title = Some [] \<or> oldid = None \<or> oldid = Some []
      then Inl MissingTitleOrOldid
      else fetchDiffFromRevId fetched)"

section \<open>Revision history: fetchPastRevisions\<close>

text \<open>
  The two locators of a revision are kept as the components they are formatted from:
  the title and the revision identifier.
\<close>

datatype locator = RevisionLocator string nat | ArticleLocator string

record Revision =
  revisionUrl :: locator
  articleUrl :: locator
  userName :: string
  userId :: nat
  timestamp :: real
  diff :: "string option"

text \<open>A revision as the history endpoint lists it, its timestamp already in seconds.\<close>

record api_revision =
  revid :: nat
  user :: string
  userid :: nat
  api_timestamp :: real

text \<open>
  The payload of one history request: no \<open>query.pages\<close>, a first page without a
  \<open>revisions\<close> array, or the revisions of the page in the order the endpoint lists them.
\<close>

datatype history_data = NoQueryPages | PageWithoutRevisions | PageRevisions "api_revision list"

text \<open>
  The part of \<open>fetchPastRevisions\<close> before the continuation: the title check, the request
  and the construction of the revisions of this page. The module constant \<open>getDiffs\<close> is
  \<open>false\<close>: every \<open>diff\<close> starts as \<open>null\<close>, and the guard \<open>if (!getDiffs)\<close> further down
  is always passed. The branch for \<open>getDiffs = true\<close>, one compare request per listed
  revision, is dead code and is not modelled.
\<close>

definition pageRevisions :: "string option \<Rightarrow> error + history_data \<Rightarrow> error + Revision list" where
  "pageRevisions title fetched =
     (case title of
        None \<Rightarrow> Inl MissingTitle
      | Some t \<Rightarrow>
          if t = [] then Inl MissingTitle
          else (case fetched of
                  Inl e \<Rightarrow> Inl e
                | Inr NoQueryPages \<Rightarrow> Inl UnexpectedApiStructure
                | Inr PageWithoutRevisions \<Rightarrow> Inl TypeError
                | Inr (PageRevisions page) \<Rightarrow>
                    Inr (map (\<lambda>revision.
                           \<lparr>revisionUrl = RevisionLocator t (revid revision),
                            articleUrl = ArticleLocator t,
                            userName = user revision,
                            userId = userid revision,
                            timestamp = api_timestamp revision,
                            diff = None\<rparr>) page)))"

text \<open>
  The part after the continuation: \<open>revisions.reverse()\<close>, then the diff of the locator
  is stored in the first element; on an empty array that assignment fails.
\<close>

definition reverseAndAttachDiff ::
  "string option \<Rightarrow> string option \<Rightarrow> error + diff_data \<Rightarrow> Revision list \<Rightarrow> error + Revision list" where
  "reverseAndAttachDiff title oldid fetchedDiff revisions =
     (case fetchDiffFromUrl title oldid fetchedDiff of
        Inl e \<Rightarrow> Inl e
      | Inr d \<Rightarrow>
          (case rev revisions of
             [] \<Rightarrow> Inl TypeError
           | r # rs \<Rightarrow> Inr (r\<lparr>diff := Some d\<rparr> # rs)))"

text \<open>
  The upstream is the finite sequence of what \<open>fetchWithRetry\<close> returns for the successive
  history requests: \<open>fetched\<close> for this call and \<open>later\<close> for the requests that follow the
  continuation cursor. A payload carries a cursor exactly when \<open>later\<close> is not empty. Each
  level of the recursion reverses what it has collected and stores the diff of the same
  locator, which the cache answers identically.
\<close>

fun fetchPastRevisions ::
  "string option \<Rightarrow> string option \<Rightarrow> error + diff_data \<Rightarrow> error + history_data
     \<Rightarrow> (error + history_data) list \<Rightarrow> error + Revision list" where
  "fetchPastRevisions title oldid fetchedDiff fetched [] =
     (case pageRevisions title fetched of
        Inl e \<Rightarrow> Inl e
      | Inr revisions \<Rightarrow> reverseAndAttachDiff title oldid fetchedDiff revisions)"
| "fetchPastRevisions title oldid fetchedDiff fetched (following # later) =
     (case pageRevisions title fetched of
        Inl e \<Rightarrow> Inl e
      | Inr revisions \<Rightarrow>
          (case fetchPastRevisions title oldid fetchedDiff following later of
             Inl e \<Rightarrow> Inl e
           | Inr nextRevisions \<Rightarrow>
               reverseAndAttachDiff title oldid fetchedDiff (revisions @ nextRevisions)))"

section \<open>Feature assembly: extractFeatures\<close>

definition calculateAverageTimeBetweenRevisions :: "Revision list \<Rightarrow> jsnum" where
  "calculateAverageTimeBetweenRevisions revisions =
     (if length revisions < 2 then Num 0
      else js_div
             (foldl (\<lambda>acc index.
                       if index = 0 then acc
                       else js_add acc (Num (timestamp (revisions ! index)
                                             - timestamp (revisions ! (index - 1)))))
                    (Num 0) [0..<length revisions])
             (Num (real (length revisions))))"

text \<open>
  \<open>nums.slice(1).map((num, ind) => num - nums[ind])\<close>: the element at position \<open>ind\<close> of
  the slice meets the element at the same position of \<open>nums\<close>.
\<close>

definition differences :: "real list \<Rightarrow> real list" where
  "differences nums = map2 (\<lambda>num prev. num - prev) (drop 1 nums) nums"

text \<open>
  The two samples are fresh arrays nobody else holds; they live at the addresses 0 and
  1 of a store local to the call. With an empty history \<open>thisRevision\<close> is undefined, the
  filters never run their callback, and the first failure is the read of
  \<open>thisRevision.userId\<close> for the risk scorer.
\<close>

definition extractFeatures ::
  "string option \<Rightarrow> string option \<Rightarrow> error + diff_data \<Rightarrow> error + history_data
     \<Rightarrow> (error + history_data) list \<Rightarrow> (nat \<Rightarrow> nat \<Rightarrow> risk_outcome) \<Rightarrow> error + obj" where
  "extractFeatures title oldid fetchedDiff fetched later endpoint =
     (case fetchPastRevisions title oldid fetchedDiff fetched later of
        Inl e \<Rightarrow> Inl e
      | Inr pastRevisions \<Rightarrow>
          (case pastRevisions of
             [] \<Rightarrow> Inl TypeError
           | thisRevision # _ \<Rightarrow>
               (let pastRevisionsCount = length pastRevisions;
                    timesBetweenRevisions = rev (differences (map timestamp pastRevisions));
                    timesBetweenUserRevisions =
                      rev (differences (map timestamp
                        (filter (\<lambda>revision. userId revision = userId thisRevision) pastRevisions)));
                    h0 = (\<lambda>_. [])(0 := timesBetweenRevisions, 1 := timesBetweenUserRevisions);
                    (timesBetweenRevisionsStats, h1) =
                      extractDistributionStatistics ''timeBetweenRevisions'' 0 h0;
                    (timesBetweenUserRevisionsStats, h2) =
                      extractDistributionStatistics ''timeBetweenUserRevisions'' 1 h1;
                    averageTimeBetweenRevisions = calculateAverageTimeBetweenRevisions pastRevisions;
                    pastRevisionsAuthoredByUser =
                      length (filter (\<lambda>revision. userId revision = userId thisRevision) pastRevisions);
                    averageTimeBetweenUserAuthoredRevisions =
                      calculateAverageTimeBetweenRevisions
                        (filter (\<lambda>revision. userId revision = userId thisRevision) pastRevisions);
                    revertRiskModelScore = fst (fetchRevertRiskScore endpoint (userId thisRevision) 3);
                    percPastRevisionsAuthored =
                      js_div (Num (real pastRevisionsAuthoredByUser)) (Num (real pastRevisionsCount));
                    diffText = (case diff thisRevision of None \<Rightarrow> JNull | Some d \<Rightarrow> JStr d);
                    features =
                      [(''authorUserName'', JStr (userName thisRevision)),
                       (''pastRevisionsCount'', JNum (Num (real pastRevisionsCount))),
                       (''averageTimeBetweenRevisions'', JNum averageTimeBetweenRevisions),
                       (''pastRevisionsAuthoredByUser'', JNum (Num (real pastRevisionsAuthoredByUser))),
                       (''revertRiskModelScore'', revertRiskModelScore),
                       (''percPastRevisionsAuthored'', JNum percPastRevisionsAuthored),
                       (''averageTimeBetweenUserAuthoredRevisions'',
                          JNum averageTimeBetweenUserAuthoredRevisions),
                       (''diffText'', diffText)]
                in Inr (obj_spread (obj_spread features timesBetweenRevisionsStats)
                          timesBetweenUserRevisionsStats))))"

section \<open>Batches: doInBatches\<close>

text \<open>
  A call of \<open>fn\<close> settles as fulfilled with a value or as rejected. \<open>Promise.all\<close> is
  fulfilled with the values in the order of the promises when all are fulfilled, and
  rejected otherwise; which member's reason it carries depends on timing and is not
  modelled.
\<close>

datatype 'r settled = Fulfilled 'r | Rejected

fun promise_all :: "'r settled list \<Rightarrow> 'r list settled" where
  "promise_all [] = Fulfilled []"
| "promise_all (Rejected # ps) = Rejected"
| "promise_all (Fulfilled r # ps) =
     (case promise_all ps of Rejected \<Rightarrow> Rejected | Fulfilled rs \<Rightarrow> Fulfilled (r # rs))"

text \<open>\<open>ts.slice(i, j)\<close> for \<open>0 \<le> i\<close>: the elements from position \<open>i\<close> up to but without \<open>j\<close>.\<close>

definition slice :: "'a list \<Rightarrow> nat \<Rightarrow> nat \<Rightarrow> 'a list" where
  "slice ts i j = take (j - i) (drop i ts)"

text \<open>
  The loop of \<open>doInBatches\<close>, with the batches issued so far recorded next to \<open>result\<close>.
  \<open>maxBatchSize\<close> is a natural number (both callers pass 5). With \<open>maxBatchSize = 0\<close>
  and a non-empty input the loop never ends: the function is partial, and \<open>None\<close> stands
  for not returning. A rejected batch rejects the whole call and no later batch is
  issued.
\<close>

partial_function (option) doInBatches_loop ::
  "('t \<Rightarrow> 'r settled) \<Rightarrow> nat \<Rightarrow> 't list \<Rightarrow> nat \<Rightarrow> 't list list \<Rightarrow> 'r list
     \<Rightarrow> ('t list list \<times> 'r list settled) option" where
  "doInBatches_loop fn maxBatchSize ts i issued result =
     (if i < length ts then
        (let batch = slice ts i (i + maxBatchSize) in
         case promise_all (map fn batch) of
           Rejected \<Rightarrow> Some (issued @ [batch], Rejected)
         | Fulfilled rs \<Rightarrow>
             doInBatches_loop fn maxBatchSize ts (i + maxBatchSize) (issued @ [batch]) (result @ rs))
      else Some (issued, Fulfilled result))"

definition doInBatches ::
  "('t \<Rightarrow> 'r settled) \<Rightarrow> nat \<Rightarrow> 't list \<Rightarrow> ('t list list \<times> 'r list settled) option" where
  "doInBatches fn maxBatchSize ts = doInBatches_loop fn maxBatchSize ts 0 [] []"

section \<open>Sample inputs\<close>

text \<open>
  Inputs on which the theorems below evaluate the model: a listed revision of user
  \<open>A\<close> with a given identifier and timestamp, a scoring endpoint on which every attempt
  throws, one that answers every attempt with status 429, an upstream that answers
  every call with status 429 and a body that parses, and one whose body never parses.
\<close>

definition revision_at :: "nat \<Rightarrow> real \<Rightarrow> api_revision" where
  "revision_at i t = \<lparr>revid = i, user = ''A'', userid = 1, api_timestamp = t\<rparr>"

definition endpoint_throws :: "nat \<Rightarrow> nat \<Rightarrow> risk_outcome" where
  "endpoint_throws revisionId attempt = Throws"

definition endpoint_rate_limited :: "nat \<Rightarrow> nat \<Rightarrow> risk_outcome" where
  "endpoint_rate_limited revisionId attempt = Status429"

definition upstream_rate_limited_with_body :: "'d \<Rightarrow> string \<Rightarrow> nat \<Rightarrow> 'd fetch_outcome" where
  "upstream_rate_limited_with_body d url k = Responds 429 (Some d)"

definition upstream_rate_limited :: "string \<Rightarrow> nat \<Rightarrow> 'd fetch_outcome" where
  "upstream_rate_limited url k = Responds 429 None"

text \<open>
  The defining equations of the two functions with a termination proof rewrite a call
  into its own body; they are applied by hand.
\<close>

declare fetchWithRetry.simps [simp del]
declare count_matches.simps [simp del]

section \<open>Properties of the distribution statistics\<close>







lemma no_overflow_excludes_huge_sample: "\<not> no_overflow [10 ^ 308, 10 ^ 308]"
  by (simp add: no_overflow_def in_double_range_def MAX_VALUE_def Let_def)



text \<open>
  Claim C5. No operation of \<open>extractDistributionStatistics\<close> can throw: a read outside
  an array gives \<open>undefined\<close> and a division by zero gives NaN, so the function has no
  error result. On a sample of one element the average, the median and both quartiles
  are that element and the standard deviation is 0; on the empty sample the average and
  the standard deviation are NaN (and the three positional statistics are \<open>undefined\<close>).
\<close>

theorem extractDistributionStatistics_degenerate:
  "extractDistributionStatistics base nums (h(nums := [x])) =
     ([(base @ ''Average'', JNum (Num x)), (base @ ''Median'', JNum (Num x)),
       (base @ ''Q1'', JNum (Num x)), (base @ ''Q3'', JNum (Num x)),
       (base @ ''StdDev'', JNum (Num 0))], h(nums := [x]))
   \<and> extractDistributionStatistics base nums (h(nums := [])) =
     ([(base @ ''Average'', JNum NaN), (base @ ''Median'', JUndefined),
       (base @ ''Q1'', JUndefined), (base @ ''Q3'', JUndefined),
       (base @ ''StdDev'', JNum NaN)], h(nums := []))"
  by (simp add: extractDistributionStatistics_def js_index_def js_sub_def Let_def)

text \<open>
  Claim C9. The sort is done on the caller's array: in the store after the call the
  array passed in holds its elements in ascending order and every other array is as it
  was; an array holding 3, 1, 2 holds 1, 2, 3 afterwards.
\<close>

theorem extractDistributionStatistics_sorts_in_place:
  "snd (extractDistributionStatistics base nums h) = h(nums := sort (h nums))
   \<and> snd (extractDistributionStatistics base 0 (\<lambda>_. [3, 1, 2])) 0 = [1, 2, 3]"
  by (simp add: extractDistributionStatistics_def Let_def)

section \<open>Properties of doInBatches\<close>

lemma promise_all_Fulfilled:
  "\<forall>p\<in>set ps. p \<noteq> Rejected \<Longrightarrow> \<exists>rs. promise_all ps = Fulfilled rs \<and> map Fulfilled rs = ps"
proof (induction ps)
  case Nil
  then show ?case by simp
next
  case (Cons p ps)
  then obtain rs where rs: "promise_all ps = Fulfilled rs" "map Fulfilled rs = ps"
    by auto
  from Cons.prems obtain r where "p = Fulfilled r"
    by (cases p) auto
  with rs show ?case by simp
qed

lemma batch_count_step:
  fixes b :: nat
  assumes "0 < b" "i < n"
  shows "Suc ((n - (i + b) + b - 1) div b) = (n - i + b - 1) div b"
proof (cases "n - i \<le> b")
  case True
  then have z: "n - (i + b) = 0" by simp
  have "(n - i + b - 1) div b = 1"
  proof -
    have "b \<le> n - i + b - 1" "n - i + b - 1 < 2 * b"
      using assms True by simp_all
    then show ?thesis
      by (intro div_nat_eqI) simp_all
  qed
  moreover have "(b - 1) div b = 0"
    using assms by simp
  ultimately show ?thesis by (simp add: z)
next
  case False
  then have "n - i + b - 1 = (n - (i + b) + b - 1) + b"
    using assms by simp
  then have "(n - i + b - 1) div b = (n - (i + b) + b - 1) div b + 1"
    using assms by (simp only: div_add_self2) 
  then show ?thesis by simp
qed

lemma doInBatches_loop_inv:
  assumes b: "0 < b" and ok: "\<forall>t\<in>set ts. fn t \<noteq> Rejected"
  shows "\<exists>bs rs. doInBatches_loop fn b ts i issued result = Some (issued @ bs, Fulfilled (result @ rs))
           \<and> concat bs = drop i ts
           \<and> length bs = (length ts - i + b - 1) div b
           \<and> (\<forall>k. Suc k < length bs \<longrightarrow> length (bs ! k) = b)
           \<and> (bs \<noteq> [] \<longrightarrow> 0 < length (last bs) \<and> length (last bs) \<le> b)
           \<and> map Fulfilled rs = map fn (drop i ts)"
proof (induction "length ts - i" arbitrary: i issued result rule: less_induct)
  case less
  show ?case
  proof (cases "i < length ts")
    case False
    then have "doInBatches_loop fn b ts i issued result = Some (issued, Fulfilled result)"
      by (subst doInBatches_loop.simps) simp
    moreover have "(length ts - i + b - 1) div b = 0"
      using False b by simp
    ultimately show ?thesis using False by simp
  next
    case True
    define batch where "batch = slice ts i (i + b)"
    have batch: "batch = take b (drop i ts)"
      by (simp add: batch_def slice_def)
    have blen: "0 < length batch" "length batch \<le> b"
      using True b by (simp_all add: batch)
    have "\<forall>p\<in>set (map fn batch). p \<noteq> Rejected"
      using ok by (auto simp: batch dest: in_set_takeD in_set_dropD)
    then obtain rs0 where rs0: "promise_all (map fn batch) = Fulfilled rs0"
        "map Fulfilled rs0 = map fn batch"
      using promise_all_Fulfilled by blast
    have "length ts - (i + b) < length ts - i"
      using True b by simp
    from less [OF this, of "issued @ [batch]" "result @ rs0"]
    obtain bs' rs' where IH:
      "doInBatches_loop fn b ts (i + b) (issued @ [batch]) (result @ rs0)
         = Some ((issued @ [batch]) @ bs', Fulfilled ((result @ rs0) @ rs'))"
      "concat bs' = drop (i + b) ts"
      "length bs' = (length ts - (i + b) + b - 1) div b"
      "\<forall>k. Suc k < length bs' \<longrightarrow> length (bs' ! k) = b"
      "bs' \<noteq> [] \<longrightarrow> 0 < length (last bs') \<and> length (last bs') \<le> b"
      "map Fulfilled rs' = map fn (drop (i + b) ts)"
      by blast
    have step: "doInBatches_loop fn b ts i issued result
        = Some (issued @ (batch # bs'), Fulfilled (result @ (rs0 @ rs')))"
      using True rs0(1) IH(1)
      by (subst doInBatches_loop.simps) (simp add: batch_def [symmetric])
    have split: "drop i ts = batch @ drop (i + b) ts"
      using append_take_drop_id [of b "drop i ts"] by (simp add: batch add.commute)
    have c: "concat (batch # bs') = drop i ts"
      using IH(2) split by simp
    have l: "length (batch # bs') = (length ts - i + b - 1) div b"
      using IH(3) batch_count_step [OF b True] by simp
    have full: "bs' \<noteq> [] \<Longrightarrow> length batch = b"
    proof -
      assume "bs' \<noteq> []"
      then have "last bs' \<in> set bs'" "last bs' \<noteq> []"
        using IH(5) by simp_all
      then have "concat bs' \<noteq> []"
        by auto
      then have "drop (i + b) ts \<noteq> []"
        using IH(2) by simp
      then show "length batch = b"
        by (simp add: batch)
    qed
    have sizes: "\<forall>k. Suc k < length (batch # bs') \<longrightarrow> length ((batch # bs') ! k) = b"
    proof (intro allI impI)
      fix k assume k: "Suc k < length (batch # bs')"
      show "length ((batch # bs') ! k) = b"
      proof (cases k)
        case 0
        with k have "bs' \<noteq> []" by auto
        with 0 full show ?thesis by simp
      next
        case (Suc k')
        with k IH(4) show ?thesis by simp
      qed
    qed
    have lst: "0 < length (last (batch # bs')) \<and> length (last (batch # bs')) \<le> b"
      using blen IH(5) by simp
    have m: "map Fulfilled (rs0 @ rs') = map fn (drop i ts)"
      using rs0(2) IH(6) split by simp
    show ?thesis
      using step c l sizes lst m by blast
  qed
qed

lemma doInBatches_loop_done:
  "\<not> i < length ts \<Longrightarrow> doInBatches_loop fn b ts i issued result = Some (issued, Fulfilled result)"
  by (subst doInBatches_loop.simps) simp

lemma doInBatches_loop_step:
  "i < length ts \<Longrightarrow> promise_all (map fn (slice ts i (i + b))) = Fulfilled rs \<Longrightarrow>
   doInBatches_loop fn b ts i issued result =
     doInBatches_loop fn b ts (i + b) (issued @ [slice ts i (i + b)]) (result @ rs)"
  by (subst doInBatches_loop.simps) simp

lemma doInBatches_twelve_by_five:
  "doInBatches (\<lambda>t::nat. Fulfilled (t * t)) 5 [0, 1, 2, 3, 4, 5, 6, 7, 8, 9, 10, 11]
   = Some ([[0, 1, 2, 3, 4], [5, 6, 7, 8, 9], [10, 11]],
           Fulfilled [0, 1, 4, 9, 16, 25, 36, 49, 64, 81, 100, 121])"
  by (simp add: doInBatches_def doInBatches_loop_step doInBatches_loop_done slice_def)

text \<open>
  Claim C10. For a batch size \<open>b > 0\<close> and calls of \<open>fn\<close> that are all fulfilled,
  \<open>doInBatches\<close> returns; the batches it issued are consecutive pieces of the input whose
  concatenation is the input, there are \<open>\<lceil>|ts| / b\<rceil>\<close> of them, each but the last has
  \<open>b\<close> elements and the last has between 1 and \<open>b\<close>; the result has the length of the
  input and its element \<open>i\<close> is the value of \<open>fn\<close> on the input's element \<open>i\<close>. Twelve
  inputs with batch size 5 give three batches of 5, 5 and 2 elements.
\<close>

theorem doInBatches_batches_and_order:
  assumes "0 < b" and "\<forall>t\<in>set ts. fn t \<noteq> Rejected"
  shows "\<exists>batches rs. doInBatches fn b ts = Some (batches, Fulfilled rs)
     \<and> concat batches = ts
     \<and> length batches = (length ts + b - 1) div b
     \<and> (\<forall>k. Suc k < length batches \<longrightarrow> length (batches ! k) = b)
     \<and> (batches \<noteq> [] \<longrightarrow> 0 < length (last batches) \<and> length (last batches) \<le> b)
     \<and> length rs = length ts
     \<and> (\<forall>i<length ts. fn (ts ! i) = Fulfilled (rs ! i))"
proof -
  have "\<exists>bs rs. doInBatches fn b ts = Some (bs, Fulfilled rs)
      \<and> concat bs = ts
      \<and> length bs = (length ts + b - 1) div b
      \<and> (\<forall>k. Suc k < length bs \<longrightarrow> length (bs ! k) = b)
      \<and> (bs \<noteq> [] \<longrightarrow> 0 < length (last bs) \<and> length (last bs) \<le> b)
      \<and> map Fulfilled rs = map fn ts"
    using doInBatches_loop_inv [OF assms, of 0 "[]" "[]"] by (simp add: doInBatches_def)
  then obtain bs rs where inv:
    "doInBatches fn b ts = Some (bs, Fulfilled rs)"
    "concat bs = ts"
    "length bs = (length ts + b - 1) div b"
    "\<forall>k. Suc k < length bs \<longrightarrow> length (bs ! k) = b"
    "bs \<noteq> [] \<longrightarrow> 0 < length (last bs) \<and> length (last bs) \<le> b"
    "map Fulfilled rs = map fn ts"
    by blast
  have len: "length rs = length ts"
    using arg_cong [OF inv(6), of length] by simp
  have el: "\<forall>i<length ts. fn (ts ! i) = Fulfilled (rs ! i)"
  proof (intro allI impI)
    fix i assume i: "i < length ts"
    have "map fn ts ! i = map Fulfilled rs ! i"
      using inv(6) by simp
    then show "fn (ts ! i) = Fulfilled (rs ! i)"
      using i len by simp
  qed
  show ?thesis
    by (intro exI [of _ bs] exI [of _ rs] conjI inv(1) inv(2) inv(3) inv(4) inv(5) len el)
qed

theorem doInBatches_batches_and_order_witness:
  "(0::nat) < 5
   \<and> (\<exists>batches rs.
        doInBatches (\<lambda>t::nat. Fulfilled (t * t)) 5 [0, 1, 2, 3, 4, 5, 6, 7, 8, 9, 10, 11]
          = Some (batches, Fulfilled rs)
        \<and> map length batches = [5, 5, 2]
        \<and> length batches = 3
        \<and> concat batches = [0, 1, 2, 3, 4, 5, 6, 7, 8, 9, 10, 11]
        \<and> rs = [0, 1, 4, 9, 16, 25, 36, 49, 64, 81, 100, 121])"
proof -
  have pos: "(0::nat) < 5"
    by simp
  have ok: "\<forall>t\<in>set [0, 1, 2, 3, 4, 5, 6, 7, 8, 9, 10, 11 :: nat]. Fulfilled (t * t) \<noteq> Rejected"
    by simp
  from doInBatches_batches_and_order [OF pos ok]
  obtain batches rs where r:
    "doInBatches (\<lambda>t::nat. Fulfilled (t * t)) 5 [0, 1, 2, 3, 4, 5, 6, 7, 8, 9, 10, 11]
       = Some (batches, Fulfilled rs)"
    "concat batches = [0, 1, 2, 3, 4, 5, 6, 7, 8, 9, 10, 11]"
    "length batches = (length [0, 1, 2, 3, 4, 5, 6, 7, 8, 9, 10, 11 :: nat] + 5 - 1) div 5"
    by blast
  have "batches = [[0, 1, 2, 3, 4], [5, 6, 7, 8, 9], [10, 11]]"
    and "rs = [0, 1, 4, 9, 16, 25, 36, 49, 64, 81, 100, 121]"
    using r(1) unfolding doInBatches_twelve_by_five by simp_all
  with r pos show ?thesis by simp
qed

section \<open>Properties of the diff retrieval\<close>

lemma count_matches_Nil: "count_matches pat [] = 0"
  by (subst count_matches.simps) simp

lemma count_matches_hit: "pat \<noteq> [] \<Longrightarrow> prefix pat (c # cs) \<Longrightarrow>
   count_matches pat (c # cs) = Suc (count_matches pat (drop (length pat) (c # cs)))"
  by (subst count_matches.simps) simp

lemma count_matches_miss: "pat \<noteq> [] \<Longrightarrow> \<not> prefix pat (c # cs) \<Longrightarrow>
   count_matches pat (c # cs) = count_matches pat cs"
  by (subst count_matches.simps) simp

lemmas count_matches_eval = count_matches_Nil count_matches_hit count_matches_miss

lemma prefix_drop_length: "prefix pat s \<Longrightarrow> pat @ drop (length pat) s = s"
  by (auto simp: prefix_def)

lemma find_first_sound: "find_first pat s = Some (x, y) \<Longrightarrow> s = x @ pat @ y"
proof (induction s arbitrary: x)
  case Nil
  then show ?case by (simp split: if_splits)
next
  case (Cons c cs)
  show ?case
  proof (cases "prefix pat (c # cs)")
    case True
    with Cons.prems have "x = []" "y = drop (length pat) (c # cs)"
      by simp_all
    with True show ?thesis
      using prefix_drop_length [of pat "c # cs"] by simp
  next
    case False
    with Cons.prems obtain x' where x': "find_first pat cs = Some (x', y)" "x = c # x'"
      by auto
    from Cons.IH [OF x'(1)] x'(2) show ?thesis by simp
  qed
qed

lemma find_first_leftmost:
  assumes "pat \<noteq> []"
  shows "(\<forall>p<length a. \<not> prefix pat (drop p (a @ pat @ r))) \<Longrightarrow>
         find_first pat (a @ pat @ r) = Some (a, r)"
proof (induction a)
  case Nil
  from assms obtain c cs where pat: "pat = c # cs"
    by (cases pat) auto
  have "find_first pat (c # (cs @ r)) = Some ([], drop (length pat) (c # (cs @ r)))"
    by (simp add: pat)
  then show ?case by (simp add: pat)
next
  case (Cons c a)
  from Cons.prems have miss: "\<not> prefix pat (c # (a @ pat @ r))"
    by force
  from Cons.prems have "\<forall>p<length a. \<not> prefix pat (drop p (a @ pat @ r))"
    by force
  from Cons.IH [OF this] miss show ?case by simp
qed

lemma count_matches_leftmost:
  assumes "pat \<noteq> []"
  shows "(\<forall>p<length a. \<not> prefix pat (drop p (a @ pat @ r))) \<Longrightarrow>
         count_matches pat (a @ pat @ r) = Suc (count_matches pat r)"
proof (induction a)
  case Nil
  from assms obtain c cs where pat: "pat = c # cs"
    by (cases pat) auto
  have "count_matches pat (c # (cs @ r)) = Suc (count_matches pat (drop (length pat) (c # (cs @ r))))"
    by (rule count_matches_hit) (simp_all add: pat)
  then show ?case by (simp add: pat)
next
  case (Cons c a)
  from Cons.prems have miss: "\<not> prefix pat (c # (a @ pat @ r))"
    by force
  from Cons.prems have "\<forall>p<length a. \<not> prefix pat (drop p (a @ pat @ r))"
    by force
  from Cons.IH [OF this] count_matches_miss [OF assms miss] show ?case by simp
qed

lemma count_matches_pre_Cons:
  "count_matches ''<pre>'' (c # cs) =
     (if prefix ''<pre>'' (c # cs) then 1 else 0) + count_matches ''<pre>'' cs"
proof (cases "prefix ''<pre>'' (c # cs)")
  case True
  then obtain r where r: "c # cs = ''<pre>'' @ r"
    by (auto simp: prefix_def)
  then have cs: "cs = ''pre>'' @ r" and c: "c = CHR ''<''"
    by simp_all
  have "count_matches ''<pre>'' (c # cs) = Suc (count_matches ''<pre>'' r)"
    using count_matches_hit [of "''<pre>''" c cs] True r by simp
  moreover have "count_matches ''<pre>'' cs = count_matches ''<pre>'' r"
    by (simp add: cs count_matches_eval)
  ultimately show ?thesis using True by simp
next
  case False
  then show ?thesis by (simp add: count_matches_miss)
qed

lemma occurrences_Cons:
  "{p. prefix pat (drop p (c # cs))} =
     (if prefix pat (c # cs) then {0} else {}) \<union> Suc ` {p. prefix pat (drop p cs)}"
proof (intro set_eqI iffI)
  fix p assume "p \<in> {p. prefix pat (drop p (c # cs))}"
  then show "p \<in> (if prefix pat (c # cs) then {0} else {}) \<union> Suc ` {p. prefix pat (drop p cs)}"
    by (cases p) auto
next
  fix p assume "p \<in> (if prefix pat (c # cs) then {0} else {}) \<union> Suc ` {p. prefix pat (drop p cs)}"
  then show "p \<in> {p. prefix pat (drop p (c # cs))}"
    by (auto split: if_splits)
qed

lemma finite_occurrences:
  assumes "pat \<noteq> []"
  shows "finite {p. prefix pat (drop p s)}"
proof (rule finite_subset)
  show "{p. prefix pat (drop p s)} \<subseteq> {..<length s}"
  proof
    fix p assume "p \<in> {p. prefix pat (drop p s)}"
    then have "prefix pat (drop p s)" by simp
    with assms have "drop p s \<noteq> []" by auto
    then show "p \<in> {..<length s}" by simp
  qed
qed simp

lemma card_occurrences_Cons:
  assumes "pat \<noteq> []"
  shows "card {p. prefix pat (drop p (c # cs))} =
     (if prefix pat (c # cs) then 1 else 0) + card {p. prefix pat (drop p cs)}"
proof -
  have fin: "finite (Suc ` {p. prefix pat (drop p cs)})"
    using assms by (simp add: finite_occurrences)
  have img: "card (Suc ` {p. prefix pat (drop p cs)}) = card {p. prefix pat (drop p cs)}"
    by (simp add: card_image)
  show ?thesis
    using fin img by (simp add: occurrences_Cons)
qed

lemma count_matches_pre_card:
  "count_matches ''<pre>'' s = card {p. prefix ''<pre>'' (drop p s)}"
proof (induction s)
  case Nil
  then show ?case by (simp add: count_matches_Nil)
next
  case (Cons c cs)
  have "card {p. prefix ''<pre>'' (drop p (c # cs))} =
      (if prefix ''<pre>'' (c # cs) then 1 else 0) + card {p. prefix ''<pre>'' (drop p cs)}"
    by (rule card_occurrences_Cons) simp
  with Cons.IH show ?case
    by (simp only: count_matches_pre_Cons)
qed

lemma single_occurrence:
  assumes "count_matches ''<pre>'' s = 1" "prefix ''<pre>'' (drop p s)" "prefix ''<pre>'' (drop q s)"
  shows "p = q"
proof -
  from assms(1) have "card {p. prefix ''<pre>'' (drop p s)} = 1"
    by (simp add: count_matches_pre_card)
  then obtain x where "{p. prefix ''<pre>'' (drop p s)} = {x}"
    by (rule card_1_singletonE)
  then have "p \<in> {x}" "q \<in> {x}"
    using assms(2,3) by blast+
  then show ?thesis by simp
qed

text \<open>
  What the check and the extraction do together. The check counts the opening tags
  \<open><pre>\<close> of the diff text: whenever their number is not one, \<open>fetchDiffFromRevId\<close> fails
  with the unexpected-format error. When there is exactly one opening tag and the text
  after it is \<open>inner\<close>, then a closing tag \<open></pre>\<close> that is the first one after the opening
  tag, the function returns \<open>inner\<close> unchanged. It succeeds in no other case: a result \<open>u\<close>
  means one opening tag, followed by \<open>u\<close> and a closing tag.
\<close>

lemma fetchDiffFromRevId_single_block:
  "(count_matches ''<pre>'' diffText \<noteq> 1 \<longrightarrow>
      fetchDiffFromRevId (Inr (CompareText diffText)) = Inl UnexpectedDiffFormat)
   \<and> (count_matches ''<pre>'' diffText = 1
        \<and> diffText = a @ ''<pre>'' @ inner @ ''</pre>'' @ b
        \<and> (\<forall>p<length inner. \<not> prefix ''</pre>'' (drop p (inner @ ''</pre>'' @ b))) \<longrightarrow>
      fetchDiffFromRevId (Inr (CompareText diffText)) = Inr inner)
   \<and> (fetchDiffFromRevId (Inr (CompareText diffText)) = Inr u \<longrightarrow>
      count_matches ''<pre>'' diffText = 1
      \<and> (\<exists>a b. diffText = a @ ''<pre>'' @ u @ ''</pre>'' @ b))"
proof (intro conjI impI)
  assume "count_matches ''<pre>'' diffText \<noteq> 1"
  then show "fetchDiffFromRevId (Inr (CompareText diffText)) = Inl UnexpectedDiffFormat"
    by (simp add: fetchDiffFromRevId_def)
next
  assume h: "count_matches ''<pre>'' diffText = 1
        \<and> diffText = a @ ''<pre>'' @ inner @ ''</pre>'' @ b
        \<and> (\<forall>p<length inner. \<not> prefix ''</pre>'' (drop p (inner @ ''</pre>'' @ b)))"
  then have one: "count_matches ''<pre>'' diffText = 1"
    and split: "diffText = a @ ''<pre>'' @ (inner @ ''</pre>'' @ b)"
    and close: "\<forall>p<length inner. \<not> prefix ''</pre>'' (drop p (inner @ ''</pre>'' @ b))"
    by blast+
  have at_a: "prefix ''<pre>'' (drop (length a) diffText)"
    by (simp add: split)
  have "\<forall>p<length a. \<not> prefix ''<pre>'' (drop p (a @ ''<pre>'' @ (inner @ ''</pre>'' @ b)))"
    using single_occurrence [OF one _ at_a] split by blast
  then have "find_first ''<pre>'' diffText = Some (a, inner @ ''</pre>'' @ b)"
    unfolding split by (intro find_first_leftmost) simp_all
  moreover have "find_first ''</pre>'' (inner @ ''</pre>'' @ b) = Some (inner, b)"
    using close by (intro find_first_leftmost) simp_all
  ultimately show "fetchDiffFromRevId (Inr (CompareText diffText)) = Inr inner"
    using one by (simp add: fetchDiffFromRevId_def match_pre_block_def)
next
  assume r: "fetchDiffFromRevId (Inr (CompareText diffText)) = Inr u"
  then show "count_matches ''<pre>'' diffText = 1"
    by (simp add: fetchDiffFromRevId_def split: if_splits)
next
  assume r: "fetchDiffFromRevId (Inr (CompareText diffText)) = Inr u"
  then have "match_pre_block diffText = Some u"
    by (simp add: fetchDiffFromRevId_def split: if_splits option.splits)
  then obtain x y z where "find_first ''<pre>'' diffText = Some (x, y)"
      "find_first ''</pre>'' y = Some (u, z)"
    by (auto simp: match_pre_block_def split: option.splits)
  then have "diffText = x @ ''<pre>'' @ y" "y = u @ ''</pre>'' @ z"
    by (auto dest: find_first_sound)
  then show "\<exists>a b. diffText = a @ ''<pre>'' @ u @ ''</pre>'' @ b"
    by blast
qed

lemma fetchDiffFromRevId_single_block_example:
  "count_matches ''<pre>'' ''x<pre>d</pre>y'' = 1
   \<and> fetchDiffFromRevId (Inr (CompareText ''x<pre>d</pre>y'')) = Inr ''d''
   \<and> count_matches ''<pre>'' ''<pre>a</pre><pre>b</pre>'' \<noteq> 1
   \<and> fetchDiffFromRevId (Inr (CompareText ''<pre>a</pre><pre>b</pre>'')) = Inl UnexpectedDiffFormat"
proof -
  have one: "count_matches ''<pre>'' ''x<pre>d</pre>y'' = 1"
    by (simp add: count_matches_eval)
  have close: "\<forall>p<length ''d''. \<not> prefix ''</pre>'' (drop p (''d'' @ ''</pre>'' @ ''y''))"
    by simp
  have two: "count_matches ''<pre>'' ''<pre>a</pre><pre>b</pre>'' \<noteq> 1"
    by (simp add: count_matches_eval)
  from fetchDiffFromRevId_single_block [of "''x<pre>d</pre>y''" "''x''" "''d''" "''y''"] one close
  have "fetchDiffFromRevId (Inr (CompareText ''x<pre>d</pre>y'')) = Inr ''d''"
    by simp
  moreover from fetchDiffFromRevId_single_block [of "''<pre>a</pre><pre>b</pre>''"] two
  have "fetchDiffFromRevId (Inr (CompareText ''<pre>a</pre><pre>b</pre>'')) = Inl UnexpectedDiffFormat"
    by blast
  ultimately show ?thesis using one two by blast
qed

text \<open>
  Claim C8 says that \<open>fetchDiffFromRevId\<close> succeeds exactly when the diff text holds one
  \<open><pre>\<close> block and fails with the unexpected-format error otherwise. The code checks, under
  its comment that there is exactly a single \<open><pre>\<close> block, the number of opening tags
  only. On the text \<open><pre>abc\<close>, which has one opening tag and no complete block, the
  check passes, the match of the block is \<open>null\<close>, and reading its group under the
  non-null assertion fails with a TypeError: the function neither returns a text nor
  reports the unexpected format.
\<close>

theorem fetchDiffFromRevId_unclosed_block_type_error:
  "count_matches ''<pre>'' ''<pre>abc'' = 1
   \<and> fetchDiffFromRevId (Inr (CompareText ''<pre>abc'')) = Inl TypeError"
  by (simp add: fetchDiffFromRevId_def match_pre_block_def count_matches_eval)

section \<open>Properties of the risk scorer\<close>

text \<open>
  Claim C6, as the code has it. Every statement of \<open>fetchRevertRiskScore\<close> that can throw
  stands inside the \<open>try\<close> block, so the function has no error result. With the default
  retry count it makes at most 3 attempts; it has waited 10 seconds for each attempt
  that was answered with status 429 and not at all for the others; when none of the 3
  attempts returns a value the score is 0; when all 3 are answered with status 429 the
  score is 0 and the wait is 30 seconds; and when the last attempt made returned a value,
  that value is the score.
\<close>

theorem fetchRevertRiskScore_best_effort:
  "case fetchRevertRiskScore endpoint revisionId 3 of (score, s) \<Rightarrow>
     attempts s \<le> 3
     \<and> risk_waited s =
         10 * length (filter (\<lambda>k. endpoint revisionId k = Status429) [0..<attempts s])
     \<and> ((\<forall>k<3. \<forall>v. endpoint revisionId k \<noteq> Returns v) \<longrightarrow>
           score = JNum (Num 0) \<and> attempts s = 3)
     \<and> ((\<forall>k<3. endpoint revisionId k = Status429) \<longrightarrow>
           score = JNum (Num 0) \<and> risk_waited s = 30)
     \<and> (\<forall>v. endpoint revisionId (attempts s - 1) = Returns v \<longrightarrow> score = v)"
  unfolding fetchRevertRiskScore_def numeral_3_eq_3
  by (cases "endpoint revisionId 0"; cases "endpoint revisionId (Suc 0)";
      cases "endpoint revisionId (Suc (Suc 0))")
     (simp_all add: rateLimitExceededWaitTimeSeconds_def All_less_Suc)

theorem fetchRevertRiskScore_best_effort_witness:
  "fetchRevertRiskScore endpoint_rate_limited 7 3 = (JNum (Num 0), \<lparr>attempts = 3, risk_waited = 30\<rparr>)"
proof -
  have all: "\<forall>k<3. endpoint_rate_limited 7 k = Status429"
    by (simp add: endpoint_rate_limited_def)
  obtain score s where r: "fetchRevertRiskScore endpoint_rate_limited 7 3 = (score, s)"
    by (cases "fetchRevertRiskScore endpoint_rate_limited 7 3")
  from fetchRevertRiskScore_best_effort [of endpoint_rate_limited 7] r all
  have "score = JNum (Num 0)" "risk_waited s = 30" "attempts s = 3"
    by (simp_all add: endpoint_rate_limited_def)
  then show ?thesis using r by simp
qed

text \<open>
  The claim as first stated puts a wait of 10 seconds between any two attempts. After an
  attempt that throws the loop retries at once: three throwing attempts give the default
  score with no wait at all.
\<close>

theorem fetchRevertRiskScore_no_wait_counterexample:
  "fetchRevertRiskScore endpoint_throws 7 3 = (JNum (Num 0), \<lparr>attempts = 3, risk_waited = 0\<rparr>)"
  by (simp add: fetchRevertRiskScore_def numeral_3_eq_3 endpoint_throws_def)

section \<open>Properties of fetchWithRetry\<close>

text \<open>
  A cached locator is answered from the cache with no network call; a rejected \<open>fetch\<close>
  and a body that does not parse under a status other than 429 fail at once; a
  status 429 whose body does not parse is retried after 10 seconds, three times, and the
  fourth such answer raises the rate-limit error after 30 seconds of waiting.
\<close>

lemma fetchWithRetry_cache_hit:
  "cache s url = Some data \<Longrightarrow> fetchWithRetry net url retryCount s = (Inr data, s)"
  by (subst fetchWithRetry.simps) simp

lemma fetchWithRetry_transport_failure:
  "cache s url = None \<Longrightarrow> net url (calls s) = FetchFails \<Longrightarrow>
   fetchWithRetry net url retryCount s = (Inl TransportFailure, s\<lparr>calls := calls s + 1\<rparr>)"
  by (subst fetchWithRetry.simps) simp

lemma fetchWithRetry_parse_failure:
  "cache s url = None \<Longrightarrow> net url (calls s) = Responds status None \<Longrightarrow> status \<noteq> 429 \<Longrightarrow>
   fetchWithRetry net url retryCount s = (Inl ParseFailure, s\<lparr>calls := calls s + 1\<rparr>)"
  by (subst fetchWithRetry.simps) simp

lemma fetchWithRetry_rate_limit_exhausted:
  "fetchWithRetry upstream_rate_limited url 3 \<lparr>cache = Map.empty, calls = 0, waited = 0\<rparr> =
   (Inl RateLimitExceeded, \<lparr>cache = Map.empty, calls = 4, waited = 30\<rparr>)"
  apply (subst fetchWithRetry.simps, simp add: upstream_rate_limited_def)+
  apply (simp add: rateLimitExceededWaitTimeSeconds_def)
  done

text \<open>
  Claim C7 says that a rate-limit signal from the upstream makes \<open>fetchWithRetry\<close> wait
  and retry. The code looks at the status in its \<open>catch\<close> block only: when the upstream
  answers with status 429 and a body that parses, nothing throws, and the body is cached
  under the locator and returned as the payload, after one call and no wait.
\<close>

theorem fetchWithRetry_caches_rate_limited_body:
  "fetchWithRetry (upstream_rate_limited_with_body d) url 3
     \<lparr>cache = Map.empty, calls = 0, waited = 0\<rparr> =
   (Inr d, \<lparr>cache = [url \<mapsto> d], calls = 1, waited = 0\<rparr>)"
  by (subst fetchWithRetry.simps) (simp add: upstream_rate_limited_with_body_def)

section \<open>Properties of the history fetcher and the feature assembler\<close>

lemma diff_example: "fetchDiffFromRevId (Inr (CompareText ''<pre>d</pre>'')) = Inr ''d''"
  by (simp add: fetchDiffFromRevId_def match_pre_block_def count_matches_eval)

lemma sqrt_625: "sqrt 625 = 25"
  using real_sqrt_abs [of 25] by simp

lemma extractFeatures_names:
  "extractFeatures title oldid fetchedDiff fetched later endpoint = Inr features \<Longrightarrow>
   map fst features =
     [''authorUserName'', ''pastRevisionsCount'', ''averageTimeBetweenRevisions'',
      ''pastRevisionsAuthoredByUser'', ''revertRiskModelScore'', ''percPastRevisionsAuthored'',
      ''averageTimeBetweenUserAuthoredRevisions'', ''diffText'',
      ''timeBetweenRevisionsAverage'', ''timeBetweenRevisionsMedian'', ''timeBetweenRevisionsQ1'',
      ''timeBetweenRevisionsQ3'', ''timeBetweenRevisionsStdDev'',
      ''timeBetweenUserRevisionsAverage'', ''timeBetweenUserRevisionsMedian'',
      ''timeBetweenUserRevisionsQ1'', ''timeBetweenUserRevisionsQ3'',
      ''timeBetweenUserRevisionsStdDev'']"
  by (auto simp: extractFeatures_def extractDistributionStatistics_def Let_def obj_spread_def
      split: sum.splits list.splits)

text \<open>
  Without a continuation the sequence returned lists the timestamps of the page in
  reverse: a page listed newest first comes back oldest first.
\<close>

lemma fetchPastRevisions_single_page:
  assumes "fetchPastRevisions title oldid fetchedDiff (Inr (PageRevisions page)) [] = Inr revisions"
  shows "map timestamp revisions = rev (map api_timestamp page)"
proof -
  from assms obtain t where t: "title = Some t" "t \<noteq> []"
    by (auto simp: pageRevisions_def split: option.splits if_splits)
  define listed where "listed = map (\<lambda>revision.
      \<lparr>revisionUrl = RevisionLocator t (revid revision), articleUrl = ArticleLocator t,
       userName = user revision, userId = userid revision,
       timestamp = api_timestamp revision, diff = None\<rparr>) page"
  have ts: "map timestamp listed = map api_timestamp page"
    by (simp add: listed_def comp_def)
  from assms t have "reverseAndAttachDiff title oldid fetchedDiff listed = Inr revisions"
    by (simp add: pageRevisions_def listed_def)
  then obtain d r rs where "rev listed = r # rs" "revisions = r\<lparr>diff := Some d\<rparr> # rs"
    by (auto simp: reverseAndAttachDiff_def split: sum.splits list.splits)
  then have "map timestamp revisions = map timestamp (rev listed)"
    by simp
  also have "\<dots> = rev (map timestamp listed)"
    by (rule rev_map [symmetric])
  also have "\<dots> = rev (map api_timestamp page)"
    by (simp only: ts)
  finally show ?thesis .
qed

text \<open>
  Claim C1 says that the sequence \<open>fetchPastRevisions\<close> returns is ordered newest first
  when the upstream lists each page newest first. The code reverses what it has
  collected: for one page listing the revisions of the timestamps 200 and 100 it returns
  the revision of timestamp 100 at index 0, carrying the diff, and the one of timestamp
  200 after it. With a second page every level of the recursion reverses again: the
  pages 600, 500, 400 and 300, 200, 100 come back as 300, 200, 100, 400, 500, 600.
\<close>

theorem fetchPastRevisions_returns_reversed_pages:
  "fetchPastRevisions (Some ''T'') (Some ''2'') (Inr (CompareText ''<pre>d</pre>''))
     (Inr (PageRevisions [revision_at 2 200, revision_at 1 100])) [] =
   Inr [\<lparr>revisionUrl = RevisionLocator ''T'' 1, articleUrl = ArticleLocator ''T'', userName = ''A'',
          userId = 1, timestamp = 100, diff = Some ''d''\<rparr>,
        \<lparr>revisionUrl = RevisionLocator ''T'' 2, articleUrl = ArticleLocator ''T'', userName = ''A'',
          userId = 1, timestamp = 200, diff = None\<rparr>]
   \<and> map_sum id (map timestamp)
       (fetchPastRevisions (Some ''T'') (Some ''6'') (Inr (CompareText ''<pre>d</pre>''))
         (Inr (PageRevisions [revision_at 6 600, revision_at 5 500, revision_at 4 400]))
         [Inr (PageRevisions [revision_at 3 300, revision_at 2 200, revision_at 1 100])])
     = Inr [300, 200, 100, 400, 500, 600]"
  by (simp add: pageRevisions_def reverseAndAttachDiff_def fetchDiffFromUrl_def diff_example
        revision_at_def)

text \<open>
  Claim C2, as the code has it. For a history of exactly one revision, a locator with a
  title, and a diff that is retrieved, \<open>extractFeatures\<close> returns the record below:
  \<open>averageTimeBetweenRevisions\<close> is 0, the averages and standard deviations of both
  samples are NaN and their medians and quartiles are \<open>undefined\<close>. Whatever the history,
  a record that is returned has the same eighteen field names in the same order. And
  \<open>calculateAverageTimeBetweenRevisions\<close> is 0 on every sequence of fewer than two
  revisions.
\<close>

theorem extractFeatures_single_revision:
  "(title = Some t \<and> t \<noteq> [] \<and> fetchDiffFromUrl title oldid fetchedDiff = Inr d \<longrightarrow>
      extractFeatures title oldid fetchedDiff (Inr (PageRevisions [r])) [] endpoint =
        Inr [(''authorUserName'', JStr (user r)),
             (''pastRevisionsCount'', JNum (Num 1)),
             (''averageTimeBetweenRevisions'', JNum (Num 0)),
             (''pastRevisionsAuthoredByUser'', JNum (Num 1)),
             (''revertRiskModelScore'', fst (fetchRevertRiskScore endpoint (userid r) 3)),
             (''percPastRevisionsAuthored'', JNum (Num 1)),
             (''averageTimeBetweenUserAuthoredRevisions'', JNum (Num 0)),
             (''diffText'', JStr d),
             (''timeBetweenRevisionsAverage'', JNum NaN),
             (''timeBetweenRevisionsMedian'', JUndefined),
             (''timeBetweenRevisionsQ1'', JUndefined),
             (''timeBetweenRevisionsQ3'', JUndefined),
             (''timeBetweenRevisionsStdDev'', JNum NaN),
             (''timeBetweenUserRevisionsAverage'', JNum NaN),
             (''timeBetweenUserRevisionsMedian'', JUndefined),
             (''timeBetweenUserRevisionsQ1'', JUndefined),
             (''timeBetweenUserRevisionsQ3'', JUndefined),
             (''timeBetweenUserRevisionsStdDev'', JNum NaN)])
   \<and> (extractFeatures title' oldid' fetchedDiff' fetched later endpoint' = Inr features \<longrightarrow>
        map fst features =
          [''authorUserName'', ''pastRevisionsCount'', ''averageTimeBetweenRevisions'',
           ''pastRevisionsAuthoredByUser'', ''revertRiskModelScore'', ''percPastRevisionsAuthored'',
           ''averageTimeBetweenUserAuthoredRevisions'', ''diffText'',
           ''timeBetweenRevisionsAverage'', ''timeBetweenRevisionsMedian'',
           ''timeBetweenRevisionsQ1'', ''timeBetweenRevisionsQ3'', ''timeBetweenRevisionsStdDev'',
           ''timeBetweenUserRevisionsAverage'', ''timeBetweenUserRevisionsMedian'',
           ''timeBetweenUserRevisionsQ1'', ''timeBetweenUserRevisionsQ3'',
           ''timeBetweenUserRevisionsStdDev''])
   \<and> (length revisions < 2 \<longrightarrow> calculateAverageTimeBetweenRevisions revisions = Num 0)"
proof (intro conjI impI)
  assume "title = Some t \<and> t \<noteq> [] \<and> fetchDiffFromUrl title oldid fetchedDiff = Inr d"
  then have title: "title = Some t" and t: "t \<noteq> []"
    and d: "fetchDiffFromUrl (Some t) oldid fetchedDiff = Inr d"
    by auto
  show "extractFeatures title oldid fetchedDiff (Inr (PageRevisions [r])) [] endpoint =
        Inr [(''authorUserName'', JStr (user r)),
             (''pastRevisionsCount'', JNum (Num 1)),
             (''averageTimeBetweenRevisions'', JNum (Num 0)),
             (''pastRevisionsAuthoredByUser'', JNum (Num 1)),
             (''revertRiskModelScore'', fst (fetchRevertRiskScore endpoint (userid r) 3)),
             (''percPastRevisionsAuthored'', JNum (Num 1)),
             (''averageTimeBetweenUserAuthoredRevisions'', JNum (Num 0)),
             (''diffText'', JStr d),
             (''timeBetweenRevisionsAverage'', JNum NaN),
             (''timeBetweenRevisionsMedian'', JUndefined),
             (''timeBetweenRevisionsQ1'', JUndefined),
             (''timeBetweenRevisionsQ3'', JUndefined),
             (''timeBetweenRevisionsStdDev'', JNum NaN),
             (''timeBetweenUserRevisionsAverage'', JNum NaN),
             (''timeBetweenUserRevisionsMedian'', JUndefined),
             (''timeBetweenUserRevisionsQ1'', JUndefined),
             (''timeBetweenUserRevisionsQ3'', JUndefined),
             (''timeBetweenUserRevisionsStdDev'', JNum NaN)]"
    unfolding title using t d
    by (simp add: extractFeatures_def pageRevisions_def reverseAndAttachDiff_def differences_def
        calculateAverageTimeBetweenRevisions_def extractDistributionStatistics_def Let_def
        obj_spread_def js_index_def)
next
  assume "extractFeatures title' oldid' fetchedDiff' fetched later endpoint' = Inr features"
  then show "map fst features =
          [''authorUserName'', ''pastRevisionsCount'', ''averageTimeBetweenRevisions'',
           ''pastRevisionsAuthoredByUser'', ''revertRiskModelScore'', ''percPastRevisionsAuthored'',
           ''averageTimeBetweenUserAuthoredRevisions'', ''diffText'',
           ''timeBetweenRevisionsAverage'', ''timeBetweenRevisionsMedian'',
           ''timeBetweenRevisionsQ1'', ''timeBetweenRevisionsQ3'', ''timeBetweenRevisionsStdDev'',
           ''timeBetweenUserRevisionsAverage'', ''timeBetweenUserRevisionsMedian'',
           ''timeBetweenUserRevisionsQ1'', ''timeBetweenUserRevisionsQ3'',
           ''timeBetweenUserRevisionsStdDev'']"
    by (rule extractFeatures_names)
next
  assume "length revisions < 2"
  then show "calculateAverageTimeBetweenRevisions revisions = Num 0"
    by (simp add: calculateAverageTimeBetweenRevisions_def)
qed

theorem extractFeatures_single_revision_witness:
  "fetchDiffFromUrl (Some ''T'') (Some ''1'') (Inr (CompareText ''<pre>d</pre>'')) = Inr ''d''
   \<and> extractFeatures (Some ''T'') (Some ''1'') (Inr (CompareText ''<pre>d</pre>''))
        (Inr (PageRevisions [revision_at 1 0])) [] endpoint_throws =
        Inr [(''authorUserName'', JStr ''A''),
             (''pastRevisionsCount'', JNum (Num 1)),
             (''averageTimeBetweenRevisions'', JNum (Num 0)),
             (''pastRevisionsAuthoredByUser'', JNum (Num 1)),
             (''revertRiskModelScore'', JNum (Num 0)),
             (''percPastRevisionsAuthored'', JNum (Num 1)),
             (''averageTimeBetweenUserAuthoredRevisions'', JNum (Num 0)),
             (''diffText'', JStr ''d''),
             (''timeBetweenRevisionsAverage'', JNum NaN),
             (''timeBetweenRevisionsMedian'', JUndefined),
             (''timeBetweenRevisionsQ1'', JUndefined),
             (''timeBetweenRevisionsQ3'', JUndefined),
             (''timeBetweenRevisionsStdDev'', JNum NaN),
             (''timeBetweenUserRevisionsAverage'', JNum NaN),
             (''timeBetweenUserRevisionsMedian'', JUndefined),
             (''timeBetweenUserRevisionsQ1'', JUndefined),
             (''timeBetweenUserRevisionsQ3'', JUndefined),
             (''timeBetweenUserRevisionsStdDev'', JNum NaN)]
   \<and> calculateAverageTimeBetweenRevisions [] = Num 0"
proof -
  have d: "fetchDiffFromUrl (Some ''T'') (Some ''1'') (Inr (CompareText ''<pre>d</pre>'')) = Inr ''d''"
    by (simp add: fetchDiffFromUrl_def diff_example)
  have risk: "fst (fetchRevertRiskScore endpoint_throws 1 3) = JNum (Num 0)"
    by (simp add: fetchRevertRiskScore_def numeral_3_eq_3 endpoint_throws_def)
  note inst = extractFeatures_single_revision [of "Some ''T''" "''T''" "Some ''1''" "Inr (CompareText ''<pre>d</pre>'')" "''d''"
        "revision_at 1 0" endpoint_throws _ _ _ _ _ _ _ "[]"]
  from inst d risk show ?thesis
    by (simp add: revision_at_def)
qed

text \<open>
  The claim as first stated covers the history without revisions and lets the
  statistics degrade to 0 or NaN. On a page without revisions the extraction fails
  (the diff is assigned to the first element of an empty array), and on one revision
  the median is \<open>undefined\<close>, neither 0 nor NaN.
\<close>

theorem extractFeatures_empty_history_counterexample:
  "extractFeatures (Some ''T'') (Some ''1'') (Inr (CompareText ''<pre>d</pre>''))
     (Inr (PageRevisions [])) [] endpoint_throws = Inl TypeError
   \<and> map_sum id (\<lambda>features. map_of features ''timeBetweenRevisionsMedian'')
       (extractFeatures (Some ''T'') (Some ''1'') (Inr (CompareText ''<pre>d</pre>''))
          (Inr (PageRevisions [revision_at 1 0])) [] endpoint_throws) = Inr (Some JUndefined)"
  by (simp add: extractFeatures_def pageRevisions_def reverseAndAttachDiff_def differences_def
        calculateAverageTimeBetweenRevisions_def extractDistributionStatistics_def Let_def
        obj_spread_def js_index_def fetchDiffFromUrl_def diff_example revision_at_def)

text \<open>
  Claim C3. The history is three revisions of user \<open>A\<close> at the timestamps 0, 100 and
  250, listed newest first in one page. \<open>extractFeatures\<close> gives 3 for
  \<open>pastRevisionsCount\<close> and for \<open>pastRevisionsAuthoredByUser\<close>, 1 for
  \<open>percPastRevisionsAuthored\<close>, \<open>(100 + 150) / 3\<close> for \<open>averageTimeBetweenRevisions\<close>, and for the
  \<open>timeBetweenUserRevisions\<close> fields the statistics of the sample 100, 150: average 125,
  median 150, quartiles 100 and 150, standard deviation 25. This holds whatever the
  risk endpoint does.
\<close>

theorem extractFeatures_three_revisions_scenario:
  "extractFeatures (Some ''T'') (Some ''3'') (Inr (CompareText ''<pre>d</pre>''))
     (Inr (PageRevisions [revision_at 3 250, revision_at 2 100, revision_at 1 0])) [] endpoint =
   Inr [(''authorUserName'', JStr ''A''),
        (''pastRevisionsCount'', JNum (Num 3)),
        (''averageTimeBetweenRevisions'', JNum (Num ((100 + 150) / 3))),
        (''pastRevisionsAuthoredByUser'', JNum (Num 3)),
        (''revertRiskModelScore'', fst (fetchRevertRiskScore endpoint 1 3)),
        (''percPastRevisionsAuthored'', JNum (Num 1)),
        (''averageTimeBetweenUserAuthoredRevisions'', JNum (Num ((100 + 150) / 3))),
        (''diffText'', JStr ''d''),
        (''timeBetweenRevisionsAverage'', JNum (Num 125)),
        (''timeBetweenRevisionsMedian'', JNum (Num 150)),
        (''timeBetweenRevisionsQ1'', JNum (Num 100)),
        (''timeBetweenRevisionsQ3'', JNum (Num 150)),
        (''timeBetweenRevisionsStdDev'', JNum (Num 25)),
        (''timeBetweenUserRevisionsAverage'', JNum (Num 125)),
        (''timeBetweenUserRevisionsMedian'', JNum (Num 150)),
        (''timeBetweenUserRevisionsQ1'', JNum (Num 100)),
        (''timeBetweenUserRevisionsQ3'', JNum (Num 150)),
        (''timeBetweenUserRevisionsStdDev'', JNum (Num 25))]
   \<and> fst (extractDistributionStatistics ''timeBetweenUserRevisions'' 0 (\<lambda>a. [100, 150])) =
       [(''timeBetweenUserRevisionsAverage'', JNum (Num 125)),
        (''timeBetweenUserRevisionsMedian'', JNum (Num 150)),
        (''timeBetweenUserRevisionsQ1'', JNum (Num 100)),
        (''timeBetweenUserRevisionsQ3'', JNum (Num 150)),
        (''timeBetweenUserRevisionsStdDev'', JNum (Num 25))]"
  by (simp add: extractFeatures_def pageRevisions_def reverseAndAttachDiff_def fetchDiffFromUrl_def
        diff_example revision_at_def differences_def calculateAverageTimeBetweenRevisions_def
        extractDistributionStatistics_def Let_def obj_spread_def js_index_def js_sub_def upt_rec
        sqrt_625)

end
